theory Spec2Isabelle
  imports Complex_Main
begin

section \<open>The reaction-diffusion simulation of the notebook \<^verbatim>\<open>featured/05_turing.ipynb\<close>\<close>

text \<open>
  The notebook simulates the FitzHugh-Nagumo system on a square grid. Its code is a
  sequence of cells: the model parameters \<^verbatim>\<open>a, b, tau, k\<close>, the discretisation
  \<^verbatim>\<open>size, dx, T, dt, n\<close>, the two fields \<^verbatim>\<open>U, V\<close>, the function
  \<^verbatim>\<open>laplacian\<close> and the simulation loop.

  A NumPy array of shape (r, c) is modelled as the list of its r rows, each a list of c
  entries. Entries are real numbers: the double-precision arithmetic of the notebook is
  idealised, so rounding, overflow, inf and nan are outside this model.
\<close>

subsection \<open>Arrays and their shape\<close>

definition shape :: "nat \<Rightarrow> nat \<Rightarrow> 'a list list \<Rightarrow> bool" where
  "shape r c Z = (length Z = r \<and> list_all (\<lambda>row. length row = c) Z)"

definition square :: "nat \<Rightarrow> 'a list list \<Rightarrow> bool" where
  "square n Z = shape n n Z"

subsection \<open>Python slices\<close>

text \<open>
  \<^verbatim>\<open>xs[lo:hi]\<close> with step 1. A negative bound counts from the end, and both bounds are
  clipped to the range of the sequence; a missing upper bound is the length.
\<close>

definition clip_index :: "nat \<Rightarrow> int \<Rightarrow> nat" where
  "clip_index n i = (if i < 0 then nat (max 0 (int n + i)) else min n (nat i))"

definition slice :: "int \<Rightarrow> int option \<Rightarrow> 'a list \<Rightarrow> 'a list" where
  "slice lo hi xs =
     (let n = length xs;
          s = clip_index n lo;
          e = (case hi of None \<Rightarrow> n | Some h \<Rightarrow> clip_index n h)
      in take (e - s) (drop s xs))"

text \<open>\<^verbatim>\<open>Z[r0:r1, c0:c1]\<close>: the row slice, then the column slice in every row.\<close>

definition slice2 :: "int \<Rightarrow> int option \<Rightarrow> int \<Rightarrow> int option \<Rightarrow> 'a list list \<Rightarrow> 'a list list" where
  "slice2 r0 r1 c0 c1 Z = map (slice c0 c1) (slice r0 r1 Z)"

subsection \<open>Elementwise arithmetic\<close>

text \<open>
  NumPy applies a binary operator entry by entry to two arrays of one shape, and a
  scalar operand to every entry. Every pair of array operands in the notebook is a
  pair of slices of extent (size-2, size-2) of size-by-size arrays (lemmas
  \<open>shape_slice2_*\<close> below), so NumPy's shape check never fails there and the zip
  in \<open>ew2\<close> never truncates.
\<close>

definition ew1 :: "('a \<Rightarrow> 'b) \<Rightarrow> 'a list list \<Rightarrow> 'b list list" where
  "ew1 f A = map (map f) A"

definition ew2 :: "('a \<Rightarrow> 'b \<Rightarrow> 'c) \<Rightarrow> 'a list list \<Rightarrow> 'b list list \<Rightarrow> 'c list list" where
  "ew2 f A B = map2 (map2 f) A B"

subsection \<open>The five-point stencil\<close>

text \<open>
  \<^verbatim>\<open>
  def laplacian(Z):
      Ztop = Z[0:-2,1:-1]
      Zleft = Z[1:-1,0:-2]
      Zbottom = Z[2:,1:-1]
      Zright = Z[1:-1,2:]
      Zcenter = Z[1:-1,1:-1]
      return (Ztop + Zleft + Zbottom + Zright - 4 * Zcenter) / dx**2
  \<close>
  \<^verbatim>\<open>dx\<close> is a global of the notebook; here it is the first argument.
\<close>

definition laplacian :: "real \<Rightarrow> real list list \<Rightarrow> real list list" where
  "laplacian dx Z =
     (let Ztop = slice2 0 (Some (- 2)) 1 (Some (- 1)) Z;
          Zleft = slice2 1 (Some (- 1)) 0 (Some (- 2)) Z;
          Zbottom = slice2 2 None 1 (Some (- 1)) Z;
          Zright = slice2 1 (Some (- 1)) 2 None Z;
          Zcenter = slice2 1 (Some (- 1)) 1 (Some (- 1)) Z
      in ew1 (\<lambda>x. x / dx ^ 2)
           (ew2 (-) (ew2 (+) (ew2 (+) (ew2 (+) Ztop Zleft) Zbottom) Zright)
                    (ew1 (\<lambda>x. 4 * x) Zcenter)))"

subsection \<open>Errors and integer indices\<close>

text \<open>
  The exceptions the notebook can raise: an integer index out of range
  (\<^verbatim>\<open>IndexError\<close>), a float division by zero outside NumPy
  (\<^verbatim>\<open>ZeroDivisionError\<close>) and a negative dimension given to
  \<^verbatim>\<open>np.random.rand\<close> (\<^verbatim>\<open>ValueError\<close>). A computation returns
  \<open>Inl\<close> of the exception or \<open>Inr\<close> of its value.
\<close>

datatype error = IndexError | ZeroDivisionError | ValueError

definition and_then :: "error + 'a \<Rightarrow> ('a \<Rightarrow> error + 'b) \<Rightarrow> error + 'b" where
  "and_then m f = (case m of Inl e \<Rightarrow> Inl e | Inr x \<Rightarrow> f x)"

text \<open>An integer index \<^verbatim>\<open>i\<close> into an axis of length \<^verbatim>\<open>n\<close>: valid from \<^verbatim>\<open>-n\<close> to \<^verbatim>\<open>n-1\<close>.\<close>

definition norm_index :: "nat \<Rightarrow> int \<Rightarrow> error + nat" where
  "norm_index n i =
     (if 0 \<le> i \<and> i < int n then Inr (nat i)
      else if i < 0 \<and> - int n \<le> i then Inr (nat (int n + i))
      else Inl IndexError)"

definition ncols :: "'a list list \<Rightarrow> nat" where
  "ncols Z = (case Z of [] \<Rightarrow> 0 | row # _ \<Rightarrow> length row)"

text \<open>\<^verbatim>\<open>Z[i,:]\<close> and \<^verbatim>\<open>Z[:,j]\<close>, read and written.\<close>

definition get_row :: "'a list list \<Rightarrow> int \<Rightarrow> error + 'a list" where
  "get_row Z i = and_then (norm_index (length Z) i) (\<lambda>r. Inr (Z ! r))"

definition set_row :: "'a list list \<Rightarrow> int \<Rightarrow> 'a list \<Rightarrow> error + 'a list list" where
  "set_row Z i v = and_then (norm_index (length Z) i) (\<lambda>r. Inr (Z[r := v]))"

definition get_col :: "'a list list \<Rightarrow> int \<Rightarrow> error + 'a list" where
  "get_col Z j = and_then (norm_index (ncols Z) j) (\<lambda>c. Inr (map (\<lambda>row. row ! c) Z))"

definition set_col :: "'a list list \<Rightarrow> int \<Rightarrow> 'a list \<Rightarrow> error + 'a list list" where
  "set_col Z j v =
     and_then (norm_index (ncols Z) j) (\<lambda>c. Inr (map2 (\<lambda>row x. row[c := x]) Z v))"

text \<open>
  \<^verbatim>\<open>Z[dst,:] = Z[src,:]\<close> and \<^verbatim>\<open>Z[:,dst] = Z[:,src]\<close>: the right-hand side is
  evaluated first, then stored. Source and destination never overlap partially (they are
  whole rows or whole columns), so reading the source through a view is reading its
  values.
\<close>

definition copy_row :: "'a list list \<Rightarrow> int \<Rightarrow> int \<Rightarrow> error + 'a list list" where
  "copy_row Z dst src = and_then (get_row Z src) (set_row Z dst)"

definition copy_col :: "'a list list \<Rightarrow> int \<Rightarrow> int \<Rightarrow> error + 'a list list" where
  "copy_col Z dst src = and_then (get_col Z src) (set_col Z dst)"

subsection \<open>The boundary pass\<close>

text \<open>
  \<^verbatim>\<open>
      Z[0,:] = Z[1,:]
      Z[-1,:] = Z[-2,:]
      Z[:,0] = Z[:,1]
      Z[:,-1] = Z[:,-2]
  \<close>
\<close>

definition neumann :: "'a list list \<Rightarrow> error + 'a list list" where
  "neumann Z =
     and_then (copy_row Z 0 1) (\<lambda>Z.
     and_then (copy_row Z (- 1) (- 2)) (\<lambda>Z.
     and_then (copy_col Z 0 1) (\<lambda>Z.
     copy_col Z (- 1) (- 2))))"

subsection \<open>The interior and its assignment\<close>

definition interior :: "'a list list \<Rightarrow> 'a list list" where
  "interior Z = slice2 1 (Some (- 1)) 1 (Some (- 1)) Z"

text \<open>
  \<open>upd_slice lo hi f xs\<close> replaces the part \<^verbatim>\<open>xs[lo:hi]\<close> by its image under \<open>f\<close>.
  \<open>set_interior Z X\<close> is \<^verbatim>\<open>Z[1:-1,1:-1] = X\<close>, for \<open>X\<close> of the extent of that
  slice (the only case in the notebook).
\<close>

definition upd_slice :: "int \<Rightarrow> int option \<Rightarrow> ('a list \<Rightarrow> 'a list) \<Rightarrow> 'a list \<Rightarrow> 'a list" where
  "upd_slice lo hi f xs =
     (let n = length xs;
          s = clip_index n lo;
          e = (case hi of None \<Rightarrow> n | Some h \<Rightarrow> clip_index n h)
      in take s xs @ f (take (e - s) (drop s xs)) @ drop (s + (e - s)) xs)"

definition set_interior :: "'a list list \<Rightarrow> 'a list list \<Rightarrow> 'a list list" where
  "set_interior Z X =
     upd_slice 1 (Some (- 1))
       (\<lambda>rows. map2 (\<lambda>row xrow. upd_slice 1 (Some (- 1)) (\<lambda>_. xrow) row) rows X) Z"

subsection \<open>One iteration\<close>

text \<open>
  The globals the loop body reads: the model parameters and the two steps.
\<close>

record params =
  par_a :: real
  par_b :: real
  par_tau :: real
  par_k :: real
  par_dx :: real
  par_dt :: real

type_synonym field = "real list list"

text \<open>
  \<^verbatim>\<open>
      deltaU = laplacian(U)
      deltaV = laplacian(V)
      Uc = U[1:-1,1:-1]
      Vc = V[1:-1,1:-1]
      U[1:-1,1:-1], V[1:-1,1:-1] = \
          Uc + dt * (a * deltaU + Uc - Uc**3 - Vc + k), \
          Vc + dt * (b * deltaV + Uc - Vc) / tau
  \<close>
  \<^verbatim>\<open>Uc\<close> and \<^verbatim>\<open>Vc\<close> are views of \<^verbatim>\<open>U\<close> and \<^verbatim>\<open>V\<close>. Python
  evaluates both expressions of the right-hand tuple, each into a new array, before it
  stores either, so both views are read before \<^verbatim>\<open>U\<close> or \<^verbatim>\<open>V\<close> changes.
\<close>

definition update :: "params \<Rightarrow> field \<times> field \<Rightarrow> field \<times> field" where
  "update p UV =
     (case UV of (U, V) \<Rightarrow>
        let a = par_a p; b = par_b p; tau = par_tau p; k = par_k p; dt = par_dt p;
            deltaU = laplacian (par_dx p) U;
            deltaV = laplacian (par_dx p) V;
            Uc = interior U;
            Vc = interior V;
            newU = ew2 (+) Uc
                     (ew1 (\<lambda>x. dt * x)
                        (ew1 (\<lambda>x. x + k)
                           (ew2 (-) (ew2 (-) (ew2 (+) (ew1 (\<lambda>x. a * x) deltaU) Uc)
                                              (ew1 (\<lambda>x. x ^ 3) Uc))
                                    Vc)));
            newV = ew2 (+) Vc
                     (ew1 (\<lambda>x. x / tau)
                        (ew1 (\<lambda>x. dt * x)
                           (ew2 (-) (ew2 (+) (ew1 (\<lambda>x. b * x) deltaV) Uc) Vc)))
        in (set_interior U newU, set_interior V newV))"

text \<open>
  \<^verbatim>\<open>
      for Z in (U, V):
          ...boundary pass...
  \<close>
\<close>

definition step :: "params \<Rightarrow> field \<times> field \<Rightarrow> error + field \<times> field" where
  "step p UV =
     (case update p UV of (U1, V1) \<Rightarrow>
        and_then (neumann U1) (\<lambda>U2.
        and_then (neumann V1) (\<lambda>V2.
        Inr (U2, V2))))"

subsection \<open>The simulation loop\<close>

text \<open>\<^verbatim>\<open>for i in range(n):\<close> runs the body \<open>n\<close> times, and not at all for \<open>n \<le> 0\<close>.\<close>

fun loop :: "nat \<Rightarrow> params \<Rightarrow> field \<times> field \<Rightarrow> error + field \<times> field" where
  "loop 0 p UV = Inr UV"
| "loop (Suc m) p UV = and_then (step p UV) (loop m p)"

subsection \<open>The notebook from its first cell\<close>

record config =
  cfg_a :: real
  cfg_b :: real
  cfg_tau :: real
  cfg_k :: real
  cfg_size :: int
  cfg_T :: real

text \<open>\<^verbatim>\<open>int(x)\<close> of a float truncates towards zero.\<close>

definition py_int :: "real \<Rightarrow> int" where
  "py_int x = (if 0 \<le> x then \<lfloor>x\<rfloor> else \<lceil>x\<rceil>)"

text \<open>
  The random source is the sequence of its draws. \<^verbatim>\<open>np.random.rand(r, c)\<close> takes the
  next \<open>r * c\<close> draws, row by row; \<open>off\<close> is the number of draws taken before.
\<close>

definition rand :: "(nat \<Rightarrow> real) \<Rightarrow> nat \<Rightarrow> nat \<Rightarrow> nat \<Rightarrow> field" where
  "rand rng off r c = map (\<lambda>i. map (\<lambda>j. rng (off + i * c + j)) [0..<c]) [0..<r]"

text \<open>
  \<^verbatim>\<open>
  size = 100  # size of the 2D grid
  dx = 2./size  # space step
  T = 10.0  # total time
  dt = .9 * dx**2/2  # time step
  n = int(T/dt)
  U = np.random.rand(size, size)
  V = np.random.rand(size, size)
  \<close>
  followed by the loop. The literals of the notebook are the fields of \<open>config\<close>. A
  float division by zero raises; \<^verbatim>\<open>np.random.rand\<close> refuses a negative dimension.
  The division by \<^verbatim>\<open>tau\<close> in the loop is NumPy's, which does not raise.
\<close>

definition script :: "config \<Rightarrow> (nat \<Rightarrow> real) \<Rightarrow> error + field \<times> field" where
  "script cfg rng =
     (if cfg_size cfg = 0 then Inl ZeroDivisionError
      else
        let dx = 2 / real_of_int (cfg_size cfg);
            dt = 0.9 * dx ^ 2 / 2
        in if dt = 0 then Inl ZeroDivisionError
           else
             let n = py_int (cfg_T cfg / dt)
             in if cfg_size cfg < 0 then Inl ValueError
                else
                  let sz = nat (cfg_size cfg);
                      U = rand rng 0 sz sz;
                      V = rand rng (sz * sz) sz sz
                  in loop (nat n)
                       \<lparr>par_a = cfg_a cfg, par_b = cfg_b cfg, par_tau = cfg_tau cfg,
                        par_k = cfg_k cfg, par_dx = dx, par_dt = dt\<rparr>
                       (U, V))"

subsection \<open>The stencil on a heap of arrays\<close>

text \<open>
  To state what \<^verbatim>\<open>laplacian\<close> writes, arrays live in a heap: the list of the arrays
  allocated so far, an array's address being its position. A slice expression makes a
  view, which refers to its base array and allocates nothing; an arithmetic operator
  reads its operands and allocates its result. \<^verbatim>\<open>laplacian\<close> consists of five slice
  expressions and six arithmetic operators, in Python's order of evaluation, and of no
  assignment to an element.
\<close>

type_synonym heap = "field list"

datatype view = View nat int "int option" int "int option"

definition read_view :: "heap \<Rightarrow> view \<Rightarrow> field" where
  "read_view h v = (case v of View z r0 r1 c0 c1 \<Rightarrow> slice2 r0 r1 c0 c1 (h ! z))"

definition alloc :: "heap \<Rightarrow> field \<Rightarrow> nat \<times> heap" where
  "alloc h A = (length h, h @ [A])"

definition laplacian_heap :: "real \<Rightarrow> nat \<Rightarrow> heap \<Rightarrow> nat \<times> heap" where
  "laplacian_heap dx Z h =
     (let Ztop = View Z 0 (Some (- 2)) 1 (Some (- 1));
          Zleft = View Z 1 (Some (- 1)) 0 (Some (- 2));
          Zbottom = View Z 2 None 1 (Some (- 1));
          Zright = View Z 1 (Some (- 1)) 2 None;
          Zcenter = View Z 1 (Some (- 1)) 1 (Some (- 1));
          (t1, h1) = alloc h (ew2 (+) (read_view h Ztop) (read_view h Zleft));
          (t2, h2) = alloc h1 (ew2 (+) (h1 ! t1) (read_view h1 Zbottom));
          (t3, h3) = alloc h2 (ew2 (+) (h2 ! t2) (read_view h2 Zright));
          (t4, h4) = alloc h3 (ew1 (\<lambda>x. 4 * x) (read_view h3 Zcenter));
          (t5, h5) = alloc h4 (ew2 (-) (h4 ! t3) (h4 ! t4))
      in alloc h5 (ew1 (\<lambda>x. x / dx ^ 2) (h5 ! t5)))"

subsection \<open>Closed form of the boundary pass\<close>

text \<open>
  Used in the proofs only. On a list of length \<open>n \<ge> 2\<close>, \<open>mirror n\<close> overwrites the first
  entry by the second and then the last by the one before it; the boundary pass is
  \<open>mirror\<close> on the list of rows followed by \<open>mirror\<close> inside every row (lemma
  \<open>neumann_square\<close>). Entry \<open>i\<close> of the result is entry \<open>nearest n i\<close> of the argument.
\<close>

definition mirror :: "nat \<Rightarrow> 'a list \<Rightarrow> 'a list" where
  "mirror n xs = (xs[0 := xs ! 1])[n - 1 := (xs[0 := xs ! 1]) ! (n - 2)]"

definition nearest :: "nat \<Rightarrow> nat \<Rightarrow> nat" where
  "nearest n i = (if i = 0 then 1 else if i = n - 1 \<and> 2 < n then n - 2 else i)"

section \<open>Slices and shapes\<close>

lemma slice_top: "slice 0 (Some (- 2)) xs = take (length xs - 2) xs"
proof -
  have "nat (max 0 (int (length xs) - 2)) = length xs - 2" by linarith
  then show ?thesis by (simp add: slice_def clip_index_def Let_def)
qed

lemma slice_mid: "slice 1 (Some (- 1)) xs = take (length xs - 2) (drop 1 xs)"
proof (cases "length xs < 2")
  case True
  then show ?thesis by (simp add: slice_def clip_index_def Let_def)
next
  case False
  then have "nat (int (length xs) - 1) - Suc 0 = length xs - 2" by linarith
  with False show ?thesis by (simp add: slice_def clip_index_def Let_def)
qed

lemma slice_bot: "slice 2 None xs = drop 2 xs"
  by (cases "length xs < 2") (simp_all add: slice_def clip_index_def Let_def min_def)

lemmas slice_simps = slice_top slice_mid slice_bot

lemma shapeI: "length Z = r \<Longrightarrow> (\<And>i. i < r \<Longrightarrow> length (Z ! i) = c) \<Longrightarrow> shape r c Z"
  by (auto simp: shape_def list_all_length)

lemma shape_length: "shape r c Z \<Longrightarrow> length Z = r"
  by (simp add: shape_def)

lemma shape_row: "shape r c Z \<Longrightarrow> i < r \<Longrightarrow> length (Z ! i) = c"
  by (simp add: shape_def list_all_length)

lemma length_slice_top: "length (slice 0 (Some (- 2)) xs) = length xs - 2"
  by (simp add: slice_top)

lemma length_slice_mid: "length (slice 1 (Some (- 1)) xs) = length xs - 2"
  by (simp add: slice_mid)

lemma length_slice_bot: "length (slice 2 None xs) = length xs - 2"
  by (simp add: slice_bot)

lemmas length_slice = length_slice_top length_slice_mid length_slice_bot

lemma nth_slice_top: "i < length xs - 2 \<Longrightarrow> slice 0 (Some (- 2)) xs ! i = xs ! i"
  by (simp add: slice_top)

lemma nth_slice_mid: "i < length xs - 2 \<Longrightarrow> slice 1 (Some (- 1)) xs ! i = xs ! Suc i"
  by (simp add: slice_mid)

lemma nth_slice_bot: "i < length xs - 2 \<Longrightarrow> slice 2 None xs ! i = xs ! Suc (Suc i)"
  by (simp add: slice_bot)

lemmas nth_slice = nth_slice_top nth_slice_mid nth_slice_bot

lemma length_slice2: "length (slice2 r0 r1 c0 c1 Z) = length (slice r0 r1 Z)"
  by (simp add: slice2_def)

lemma nth_slice2:
  "i < length (slice r0 r1 Z) \<Longrightarrow> slice2 r0 r1 c0 c1 Z ! i = slice c0 c1 (slice r0 r1 Z ! i)"
  by (simp add: slice2_def)

lemma length_ew1: "length (ew1 f A) = length A"
  by (simp add: ew1_def)

lemma nth_ew1: "i < length A \<Longrightarrow> ew1 f A ! i = map f (A ! i)"
  by (simp add: ew1_def)

lemma length_ew2: "length (ew2 f A B) = min (length A) (length B)"
  by (simp add: ew2_def)

lemma nth_ew2:
  "i < length A \<Longrightarrow> i < length B \<Longrightarrow> ew2 f A B ! i = map2 f (A ! i) (B ! i)"
  by (simp add: ew2_def)

lemma shape_ew1: "shape r c A \<Longrightarrow> shape r c (ew1 f A)"
  by (rule shapeI) (simp_all add: length_ew1 nth_ew1 shape_length shape_row)

lemma shape_ew2: "shape r c A \<Longrightarrow> shape r c B \<Longrightarrow> shape r c (ew2 f A B)"
  by (rule shapeI) (simp_all add: length_ew2 nth_ew2 shape_length shape_row)

lemma ew1_entry: "shape r c A \<Longrightarrow> i < r \<Longrightarrow> j < c \<Longrightarrow> ew1 f A ! i ! j = f (A ! i ! j)"
  by (simp add: nth_ew1 shape_length shape_row)

lemma ew2_entry:
  "shape r c A \<Longrightarrow> shape r c B \<Longrightarrow> i < r \<Longrightarrow> j < c \<Longrightarrow>
   ew2 f A B ! i ! j = f (A ! i ! j) (B ! i ! j)"
  by (simp add: nth_ew2 shape_length shape_row)

text \<open>The five operands of the stencil have one extent.\<close>

lemma shape_slice2_top_mid:
  "shape r c Z \<Longrightarrow> shape (r - 2) (c - 2) (slice2 0 (Some (- 2)) 1 (Some (- 1)) Z)"
  by (rule shapeI)
    (simp_all add: length_slice2 nth_slice2 length_slice nth_slice shape_length shape_row)

lemma shape_slice2_mid_top:
  "shape r c Z \<Longrightarrow> shape (r - 2) (c - 2) (slice2 1 (Some (- 1)) 0 (Some (- 2)) Z)"
  by (rule shapeI)
    (simp_all add: length_slice2 nth_slice2 length_slice nth_slice shape_length shape_row)

lemma shape_slice2_bot_mid:
  "shape r c Z \<Longrightarrow> shape (r - 2) (c - 2) (slice2 2 None 1 (Some (- 1)) Z)"
  by (rule shapeI)
    (simp_all add: length_slice2 nth_slice2 length_slice nth_slice shape_length shape_row)

lemma shape_slice2_mid_bot:
  "shape r c Z \<Longrightarrow> shape (r - 2) (c - 2) (slice2 1 (Some (- 1)) 2 None Z)"
  by (rule shapeI)
    (simp_all add: length_slice2 nth_slice2 length_slice nth_slice shape_length shape_row)

lemma shape_slice2_mid_mid:
  "shape r c Z \<Longrightarrow> shape (r - 2) (c - 2) (slice2 1 (Some (- 1)) 1 (Some (- 1)) Z)"
  by (rule shapeI)
    (simp_all add: length_slice2 nth_slice2 length_slice nth_slice shape_length shape_row)

lemmas shape_slice2 = shape_slice2_top_mid shape_slice2_mid_top shape_slice2_bot_mid
  shape_slice2_mid_bot shape_slice2_mid_mid

lemma slice2_entry:
  assumes "shape r c Z" "i < r - 2" "j < c - 2"
  shows "slice2 0 (Some (- 2)) 1 (Some (- 1)) Z ! i ! j = Z ! i ! Suc j"
    and "slice2 1 (Some (- 1)) 0 (Some (- 2)) Z ! i ! j = Z ! Suc i ! j"
    and "slice2 2 None 1 (Some (- 1)) Z ! i ! j = Z ! Suc (Suc i) ! Suc j"
    and "slice2 1 (Some (- 1)) 2 None Z ! i ! j = Z ! Suc i ! Suc (Suc j)"
    and "slice2 1 (Some (- 1)) 1 (Some (- 1)) Z ! i ! j = Z ! Suc i ! Suc j"
  using assms
  by (simp_all add: nth_slice2 length_slice nth_slice shape_length shape_row)

lemma shape_laplacian: "shape r c Z \<Longrightarrow> shape (r - 2) (c - 2) (laplacian dx Z)"
  unfolding laplacian_def Let_def
  by (intro shape_ew1 shape_ew2 shape_slice2)

lemma laplacian_entry:
  assumes "shape r c Z" "i < r - 2" "j < c - 2"
  shows "laplacian dx Z ! i ! j =
         (Z ! i ! Suc j + Z ! Suc i ! j + Z ! Suc (Suc i) ! Suc j + Z ! Suc i ! Suc (Suc j)
          - 4 * Z ! Suc i ! Suc j) / dx ^ 2"
proof -
  note sh = shape_slice2 [OF assms(1)]
  note e1 = ew1_entry [OF _ assms(2,3)] and e2 = ew2_entry [OF _ _ assms(2,3)]
  show ?thesis
    unfolding laplacian_def Let_def
    by (simp add: e1 e2 sh shape_ew1 shape_ew2 slice2_entry [OF assms])
qed

section \<open>The stencil operator\<close>

text \<open>
  Claim C1. For a square field \<open>Z\<close> of size \<open>sz \<ge> 3\<close>, \<open>laplacian\<close> returns an array
  of \<open>sz - 2\<close> rows of \<open>sz - 2\<close> entries, and for all interior indices
  \<open>1 \<le> i, j \<le> sz - 2\<close> its entry \<open>(i-1, j-1)\<close> is
  \<open>(Z[i-1,j] + Z[i+1,j] + Z[i,j-1] + Z[i,j+1] - 4 Z[i,j]) / dx\<^sup>2\<close>.
\<close>

theorem laplacian_stencil:
  assumes "3 \<le> sz" and "square sz Z"
  shows "shape (sz - 2) (sz - 2) (laplacian dx Z) \<and>
         (\<forall>i j. 1 \<le> i \<and> i \<le> sz - 2 \<and> 1 \<le> j \<and> j \<le> sz - 2 \<longrightarrow>
            laplacian dx Z ! (i - 1) ! (j - 1) =
            (Z ! (i - 1) ! j + Z ! (i + 1) ! j + Z ! i ! (j - 1) + Z ! i ! (j + 1)
             - 4 * Z ! i ! j) / dx ^ 2)"
proof (intro conjI allI impI)
  from assms(2) show "shape (sz - 2) (sz - 2) (laplacian dx Z)"
    by (simp add: square_def shape_laplacian)
next
  fix i j
  assume ij: "1 \<le> i \<and> i \<le> sz - 2 \<and> 1 \<le> j \<and> j \<le> sz - 2"
  then obtain i' j' where i': "i = Suc i'" and j': "j = Suc j'"
    by (metis One_nat_def Suc_le_D)
  with ij have "i' < sz - 2" "j' < sz - 2" by simp_all
  with assms(2) have "laplacian dx Z ! i' ! j' =
         (Z ! i' ! Suc j' + Z ! Suc i' ! j' + Z ! Suc (Suc i') ! Suc j' + Z ! Suc i' ! Suc (Suc j')
          - 4 * Z ! Suc i' ! Suc j') / dx ^ 2"
    by (simp add: square_def laplacian_entry)
  then show "laplacian dx Z ! (i - 1) ! (j - 1) =
            (Z ! (i - 1) ! j + Z ! (i + 1) ! j + Z ! i ! (j - 1) + Z ! i ! (j + 1)
             - 4 * Z ! i ! j) / dx ^ 2"
    by (simp add: i' j')
qed

theorem laplacian_stencil_witness:
  "(3::nat) \<le> 4 \<and> square 4 [[0, 1, 2, 0], [3, 4, 5, 0], [6, 7, 9, 0], [1, 1, 1, 1::real]] \<and>
   shape 2 2 (laplacian (2 / 5) [[0, 1, 2, 0], [3, 4, 5, 0], [6, 7, 9, 0], [1, 1, 1, 1]]) \<and>
   laplacian (2 / 5) [[0, 1, 2, 0], [3, 4, 5, 0], [6, 7, 9, 0], [1, 1, 1, 1]] ! 1 ! 0 = - 50"
proof -
  let ?Z = "[[0, 1, 2, 0], [3, 4, 5, 0], [6, 7, 9, 0], [1, 1, 1, 1::real]]"
  have sq: "square 4 ?Z" by (simp add: square_def shape_def)
  have le: "(3::nat) \<le> 4" by simp
  from laplacian_stencil [OF le sq, of "2 / 5"]
  have sh: "shape 2 2 (laplacian (2 / 5) ?Z)"
    and en: "\<And>i j. 1 \<le> i \<and> i \<le> 2 \<and> 1 \<le> j \<and> j \<le> 2 \<longrightarrow>
            laplacian (2 / 5) ?Z ! (i - 1) ! (j - 1) =
            (?Z ! (i - 1) ! j + ?Z ! (i + 1) ! j + ?Z ! i ! (j - 1) + ?Z ! i ! (j + 1)
             - 4 * ?Z ! i ! j) / (2 / 5) ^ 2"
    by simp_all
  from en [of 2 1] have "laplacian (2 / 5) ?Z ! 1 ! 0 = - 50"
    by (simp add: power2_eq_square)
  with sq sh show ?thesis by simp
qed

lemma const_arrayI:
  assumes "shape r c A" and "\<And>i j. i < r \<Longrightarrow> j < c \<Longrightarrow> A ! i ! j = v"
  shows "A = replicate r (replicate c v)"
proof (rule nth_equalityI)
  show "length A = length (replicate r (replicate c v))"
    using assms(1) by (simp add: shape_length)
next
  fix i assume "i < length A"
  with assms(1) have i: "i < r" by (simp add: shape_length)
  have "A ! i = replicate c v"
    by (rule nth_equalityI) (simp_all add: shape_row [OF assms(1) i] assms(2) [OF i])
  with i show "A ! i = replicate r (replicate c v) ! i" by simp
qed

text \<open>
  Claim C6. For a field that is an affine function \<open>\<alpha> x + \<beta> y + \<gamma>\<close> sampled on a regular
  grid (origin \<open>(x0, y0)\<close>, spacing \<open>h\<close>), the array returned by \<open>laplacian\<close> is zero at
  every entry, exactly.
\<close>

theorem laplacian_affine_zero:
  assumes "square sz Z" and "dx \<noteq> 0"
    and "\<forall>i<sz. \<forall>j<sz. Z ! i ! j = \<alpha> * (x0 + real j * h) + \<beta> * (y0 + real i * h) + \<gamma>"
  shows "laplacian dx Z = replicate (sz - 2) (replicate (sz - 2) 0)"
proof (rule const_arrayI)
  from assms(1) show "shape (sz - 2) (sz - 2) (laplacian dx Z)"
    by (simp add: square_def shape_laplacian)
next
  fix i j assume ij: "i < sz - 2" "j < sz - 2"
  then have "i < sz" "Suc i < sz" "Suc (Suc i) < sz" "j < sz" "Suc j < sz" "Suc (Suc j) < sz"
    by simp_all
  with assms(3) have
    "Z ! i ! Suc j = \<alpha> * (x0 + real (Suc j) * h) + \<beta> * (y0 + real i * h) + \<gamma>"
    "Z ! Suc i ! j = \<alpha> * (x0 + real j * h) + \<beta> * (y0 + real (Suc i) * h) + \<gamma>"
    "Z ! Suc (Suc i) ! Suc j = \<alpha> * (x0 + real (Suc j) * h) + \<beta> * (y0 + real (Suc (Suc i)) * h) + \<gamma>"
    "Z ! Suc i ! Suc (Suc j) = \<alpha> * (x0 + real (Suc (Suc j)) * h) + \<beta> * (y0 + real (Suc i) * h) + \<gamma>"
    "Z ! Suc i ! Suc j = \<alpha> * (x0 + real (Suc j) * h) + \<beta> * (y0 + real (Suc i) * h) + \<gamma>"
    by blast+
  then have "Z ! i ! Suc j + Z ! Suc i ! j + Z ! Suc (Suc i) ! Suc j + Z ! Suc i ! Suc (Suc j)
          - 4 * Z ! Suc i ! Suc j = 0"
    by (simp add: algebra_simps)
  moreover from assms(1) ij have "laplacian dx Z ! i ! j =
         (Z ! i ! Suc j + Z ! Suc i ! j + Z ! Suc (Suc i) ! Suc j + Z ! Suc i ! Suc (Suc j)
          - 4 * Z ! Suc i ! Suc j) / dx ^ 2"
    by (simp add: square_def laplacian_entry)
  ultimately show "laplacian dx Z ! i ! j = 0" by simp
qed

theorem laplacian_affine_zero_witness:
  "square 4 [[0, 1/2, 1, 3/2], [1, 3/2, 2, 5/2], [2, 5/2, 3, 7/2], [3, 7/2, 4, 9/2::real]] \<and>
   laplacian (1/2) [[0, 1/2, 1, 3/2], [1, 3/2, 2, 5/2], [2, 5/2, 3, 7/2], [3, 7/2, 4, 9/2]]
     = [[0, 0], [0, 0]]"
proof -
  let ?Z = "[[0, 1/2, 1, 3/2], [1, 3/2, 2, 5/2], [2, 5/2, 3, 7/2], [3, 7/2, 4, 9/2::real]]"
  have sq: "square 4 ?Z" by (simp add: square_def shape_def)
  have dx: "(1/2::real) \<noteq> 0" by simp
  have "\<forall>j<4. ?Z ! i ! j = 1 * (- 1 + real j * (1/2)) + 2 * (- 1 + real i * (1/2)) + 3" if "i < 4" for i
  proof -
    from that consider "i = 0" | "i = 1" | "i = 2" | "i = 3" by linarith
    then show ?thesis
      by cases (simp_all add: numeral_eq_Suc less_Suc_eq)
  qed
  then have af: "\<forall>i<4. \<forall>j<4. ?Z ! i ! j = 1 * (- 1 + real j * (1/2)) + 2 * (- 1 + real i * (1/2)) + 3"
    by blast
  from laplacian_affine_zero [OF sq dx af] have "laplacian (1/2) ?Z = replicate 2 (replicate 2 0)"
    by simp
  with sq show ?thesis by (simp add: numeral_2_eq_2)
qed

text \<open>
  Claim C7. \<open>laplacian\<close> writes nothing: after the call the input array \<open>Z\<close>, and every
  other array that existed before, is what it was; the result is a new array holding
  the stencil of \<open>Z\<close>.
\<close>

theorem laplacian_heap_frame:
  assumes "Z < length h"
  shows "(case laplacian_heap dx Z h of (r, h') \<Rightarrow>
           h' ! Z = h ! Z \<and> take (length h) h' = h \<and> length h \<le> r \<and> r < length h' \<and>
           h' ! r = laplacian dx (h ! Z))"
  using assms
  by (simp add: laplacian_heap_def laplacian_def alloc_def read_view_def Let_def nth_append)

theorem laplacian_heap_frame_witness:
  "(0::nat) < length [[[0, 1, 2], [3, 4, 5], [6, 7, 9::real]]] \<and>
   snd (laplacian_heap 1 0 [[[0, 1, 2], [3, 4, 5], [6, 7, 9]]]) ! 0 = [[0, 1, 2], [3, 4, 5], [6, 7, 9]] \<and>
   snd (laplacian_heap 1 0 [[[0, 1, 2], [3, 4, 5], [6, 7, 9]]]) ! fst (laplacian_heap 1 0 [[[0, 1, 2], [3, 4, 5], [6, 7, 9]]])
     = laplacian 1 [[0, 1, 2], [3, 4, 5], [6, 7, 9]]"
  using laplacian_heap_frame [of 0 "[[[0, 1, 2], [3, 4, 5], [6, 7, 9::real]]]" 1]
  by (simp add: case_prod_beta)

section \<open>The boundary pass\<close>

lemma and_then_Inr: "and_then (Inr x) f = f x"
  by (simp add: and_then_def)

lemma norm_index_0: "2 \<le> n \<Longrightarrow> norm_index n 0 = Inr 0"
  by (simp add: norm_index_def)

lemma norm_index_1: "2 \<le> n \<Longrightarrow> norm_index n 1 = Inr 1"
  by (simp add: norm_index_def)

lemma norm_index_m1: "2 \<le> n \<Longrightarrow> norm_index n (- 1) = Inr (n - 1)"
  by (auto simp: norm_index_def nat_diff_distrib')

lemma norm_index_m2: "2 \<le> n \<Longrightarrow> norm_index n (- 2) = Inr (n - 2)"
  by (auto simp: norm_index_def nat_diff_distrib')

lemmas norm_index_simps = norm_index_0 norm_index_1 norm_index_m1 norm_index_m2

lemma length_mirror: "length (mirror n xs) = length xs"
  by (simp add: mirror_def)

lemma mirror_nth:
  "length xs = n \<Longrightarrow> 2 \<le> n \<Longrightarrow> i < n \<Longrightarrow> mirror n xs ! i = xs ! nearest n i"
  by (cases "i = 0"; cases "i = n - 1"; cases "n = 2")
    (auto simp: mirror_def nearest_def nth_list_update)

lemma ncols_shape: "shape r c Z \<Longrightarrow> 0 < r \<Longrightarrow> ncols Z = c"
  by (cases Z) (simp_all add: ncols_def shape_def)

lemma set_col_get_col:
  "map2 (\<lambda>row x. row[d := x]) Z (map (\<lambda>row. row ! s) Z) = map (\<lambda>row. row[d := row ! s]) Z"
  by (induction Z) simp_all

lemma shape_list_update: "shape r c Z \<Longrightarrow> length v = c \<Longrightarrow> shape r c (Z[i := v])"
  by (auto simp: shape_def list_all_iff dest!: set_update_subset_insert [THEN subsetD])

lemma shape_map_rows:
  "shape r c Z \<Longrightarrow> (\<And>row. length (f row) = length row) \<Longrightarrow> shape r c (map f Z)"
  by (simp add: shape_def list_all_length)

lemma shape_mirror_rows: "shape r c Z \<Longrightarrow> 2 \<le> r \<Longrightarrow> shape r c (mirror r Z)"
  unfolding mirror_def
  by (intro shape_list_update) (simp_all add: shape_row shape_length nth_list_update)

lemma copy_row_square:
  assumes "shape r c Z" "2 \<le> r"
  shows "copy_row Z 0 1 = Inr (Z[0 := Z ! 1])"
    and "copy_row Z (- 1) (- 2) = Inr (Z[r - 1 := Z ! (r - 2)])"
  using assms
  by (simp_all add: copy_row_def get_row_def set_row_def shape_length norm_index_simps and_then_Inr)

lemma copy_col_square:
  assumes "shape r c Z" "0 < r" "2 \<le> c"
  shows "copy_col Z 0 1 = Inr (map (\<lambda>row. row[0 := row ! 1]) Z)"
    and "copy_col Z (- 1) (- 2) = Inr (map (\<lambda>row. row[c - 1 := row ! (c - 2)]) Z)"
  using assms
  by (simp_all add: copy_col_def get_col_def set_col_def ncols_shape norm_index_simps and_then_Inr
      set_col_get_col)

lemma neumann_square:
  assumes "square sz Z" "2 \<le> sz"
  shows "neumann Z = Inr (map (mirror sz) (mirror sz Z))"
proof -
  define Z1 where "Z1 = Z[0 := Z ! 1]"
  define Z2 where "Z2 = Z1[sz - 1 := Z1 ! (sz - 2)]"
  define Z3 where "Z3 = map (\<lambda>row. row[0 := row ! 1]) Z2"
  define Z4 where "Z4 = map (\<lambda>row. row[sz - 1 := row ! (sz - 2)]) Z3"
  from assms have sh: "shape sz sz Z" by (simp add: square_def)
  have pos: "0 < sz" using assms(2) by simp
  have sh1: "shape sz sz Z1"
    unfolding Z1_def using sh assms(2) by (intro shape_list_update) (simp_all add: shape_row)
  have Z2: "Z2 = mirror sz Z"
    by (simp add: Z2_def Z1_def mirror_def)
  have sh2: "shape sz sz Z2"
    unfolding Z2 using sh assms(2) by (rule shape_mirror_rows)
  have sh3: "shape sz sz Z3"
    unfolding Z3_def using sh2 by (rule shape_map_rows) simp
  have Z4: "Z4 = map (mirror sz) Z2"
    by (simp add: Z4_def Z3_def mirror_def)
  have s1: "copy_row Z 0 1 = Inr Z1"
    unfolding Z1_def by (rule copy_row_square [OF sh assms(2)])
  have s2: "copy_row Z1 (- 1) (- 2) = Inr Z2"
    unfolding Z2_def by (rule copy_row_square [OF sh1 assms(2)])
  have s3: "copy_col Z2 0 1 = Inr Z3"
    unfolding Z3_def by (rule copy_col_square [OF sh2 pos assms(2)])
  have s4: "copy_col Z3 (- 1) (- 2) = Inr Z4"
    unfolding Z4_def by (rule copy_col_square [OF sh3 pos assms(2)])
  have "neumann Z = Inr Z4"
    unfolding neumann_def s1 and_then_Inr s2 s3 s4 ..
  then show ?thesis by (simp add: Z4 Z2)
qed

lemma square_neumann_result:
  assumes "square sz Z" "2 \<le> sz"
  shows "square sz (map (mirror sz) (mirror sz Z))"
  unfolding square_def
  using assms
  by (intro shape_map_rows shape_mirror_rows) (simp_all add: square_def length_mirror)

lemma neumann_entry:
  assumes "square sz Z" "2 \<le> sz" "i < sz" "j < sz"
  shows "map (mirror sz) (mirror sz Z) ! i ! j = Z ! nearest sz i ! nearest sz j"
proof -
  from assms have sh: "shape sz sz Z" by (simp add: square_def)
  have ni: "nearest sz i < sz" using assms(2,3) by (auto simp: nearest_def)
  have "map (mirror sz) (mirror sz Z) ! i = mirror sz (mirror sz Z ! i)"
    using assms(3) sh by (simp add: length_mirror shape_length)
  also have "mirror sz Z ! i = Z ! nearest sz i"
    using sh assms(2,3) by (simp add: mirror_nth shape_length)
  finally show ?thesis
    using assms(2,4) ni by (simp add: mirror_nth shape_row [OF sh])
qed

section \<open>The interior update\<close>

lemma upd_slice_mid:
  assumes "2 \<le> length xs"
  shows "upd_slice 1 (Some (- 1)) f xs =
         take 1 xs @ f (slice 1 (Some (- 1)) xs) @ drop (length xs - 1) xs"
proof -
  from assms have "nat (int (length xs) - 1) = length xs - 1" by linarith
  moreover from assms have "Suc (length xs - Suc 0 - Suc 0) = length xs - 1" by linarith
  moreover from assms have "length xs - Suc 0 - Suc 0 = length xs - 2" by linarith
  ultimately show ?thesis
    using assms by (simp add: upd_slice_def slice_mid clip_index_def Let_def)
qed

lemma splice_length:
  "2 \<le> length xs \<Longrightarrow> length ys = length xs - 2 \<Longrightarrow>
   length (take 1 xs @ ys @ drop (length xs - 1) xs) = length xs"
  by simp

lemma splice_nth:
  assumes "2 \<le> length xs" "length ys = length xs - 2" "i < length xs"
  shows "(take 1 xs @ ys @ drop (length xs - 1) xs) ! i =
         (if 0 < i \<and> i < length xs - 1 then ys ! (i - 1) else xs ! i)"
proof -
  consider "i = 0" | "0 < i" "i < length xs - 1" | "i = length xs - 1" "0 < i"
    using assms(3) by linarith
  then show ?thesis
  proof cases
    case 1
    with assms show ?thesis by (simp add: nth_append)
  next
    case 2
    then have "i - Suc 0 < length xs - 2" by linarith
    with 2 assms show ?thesis by (simp add: nth_append min_def)
  next
    case 3
    have "\<not> length xs - Suc (Suc 0) < length xs - 2" by linarith
    with 3 assms show ?thesis by (simp add: nth_append min_def)
  qed
qed

lemma set_interior_rows:
  assumes "shape r c Z" "2 \<le> r" "shape (r - 2) (c - 2) X"
  shows "length (set_interior Z X) = r"
    and "i < r \<Longrightarrow> set_interior Z X ! i =
           (if 0 < i \<and> i < r - 1
            then upd_slice 1 (Some (- 1)) (\<lambda>_. X ! (i - 1)) (Z ! i) else Z ! i)"
proof -
  let ?g = "\<lambda>row xrow. upd_slice 1 (Some (- 1)) (\<lambda>_. xrow) row"
  let ?ys = "map2 ?g (slice 1 (Some (- 1)) Z) X"
  have lz: "length Z = r" and lx: "length X = r - 2"
    using assms by (simp_all add: shape_length)
  have eq: "set_interior Z X = take 1 Z @ ?ys @ drop (length Z - 1) Z"
    unfolding set_interior_def using assms(2) lz by (simp add: upd_slice_mid)
  have ly: "length ?ys = length Z - 2"
    by (simp add: lz lx length_slice)
  show "length (set_interior Z X) = r"
    unfolding eq using assms(2) lz ly by (simp add: splice_length)
  assume i: "i < r"
  have "set_interior Z X ! i = (if 0 < i \<and> i < length Z - 1 then ?ys ! (i - 1) else Z ! i)"
    unfolding eq using assms(2) lz ly i by (intro splice_nth) simp_all
  moreover have "?ys ! (i - 1) = ?g (Z ! i) (X ! (i - 1))" if "0 < i" "i < r - 1"
    using that lz lx by (simp add: length_slice nth_slice)
  ultimately show "set_interior Z X ! i =
           (if 0 < i \<and> i < r - 1
            then upd_slice 1 (Some (- 1)) (\<lambda>_. X ! (i - 1)) (Z ! i) else Z ! i)"
    by (simp add: lz)
qed

lemma shape_set_interior:
  assumes "shape r c Z" "2 \<le> r" "2 \<le> c" "shape (r - 2) (c - 2) X"
  shows "shape r c (set_interior Z X)"
proof (rule shapeI)
  show "length (set_interior Z X) = r"
    using assms(1,2,4) by (rule set_interior_rows)
next
  fix i assume i: "i < r"
  show "length (set_interior Z X ! i) = c"
  proof (cases "0 < i \<and> i < r - 1")
    case True
    then have "i - 1 < r - 2" by linarith
    with assms(4) have "length (X ! (i - 1)) = c - 2" by (rule shape_row)
    with True i assms(3) shape_row [OF assms(1) i] show ?thesis
      by (simp add: set_interior_rows(2) [OF assms(1,2,4) i] upd_slice_mid)
  next
    case False
    with i shape_row [OF assms(1) i] show ?thesis
      by (auto simp: set_interior_rows(2) [OF assms(1,2,4) i])
  qed
qed

lemma set_interior_entry:
  assumes "shape r c Z" "2 \<le> r" "2 \<le> c" "shape (r - 2) (c - 2) X" "i < r" "j < c"
  shows "set_interior Z X ! i ! j =
         (if 0 < i \<and> i < r - 1 \<and> 0 < j \<and> j < c - 1 then X ! (i - 1) ! (j - 1) else Z ! i ! j)"
proof (cases "0 < i \<and> i < r - 1")
  case True
  then have "i - 1 < r - 2" by linarith
  with assms(4) have lx: "length (X ! (i - 1)) = c - 2" by (rule shape_row)
  have lz: "length (Z ! i) = c" using assms(1,5) by (rule shape_row)
  have "set_interior Z X ! i = take 1 (Z ! i) @ X ! (i - 1) @ drop (length (Z ! i) - 1) (Z ! i)"
    using True assms(3) lz by (simp add: set_interior_rows(2) [OF assms(1,2,4,5)] upd_slice_mid)
  moreover have "(take 1 (Z ! i) @ X ! (i - 1) @ drop (length (Z ! i) - 1) (Z ! i)) ! j =
      (if 0 < j \<and> j < length (Z ! i) - 1 then X ! (i - 1) ! (j - 1) else Z ! i ! j)"
    using assms(3,6) lx lz by (intro splice_nth) simp_all
  ultimately show ?thesis using True lz by simp
next
  case False
  then show ?thesis by (auto simp: set_interior_rows(2) [OF assms(1,2,4,5)])
qed

lemma shape_interior: "shape r c Z \<Longrightarrow> shape (r - 2) (c - 2) (interior Z)"
  unfolding interior_def by (rule shape_slice2_mid_mid)

lemma interior_entry:
  "shape r c Z \<Longrightarrow> i < r - 2 \<Longrightarrow> j < c - 2 \<Longrightarrow> interior Z ! i ! j = Z ! Suc i ! Suc j"
  unfolding interior_def by (rule slice2_entry)

lemma update_fst:
  "fst (update p (U, V)) =
   set_interior U
     (ew2 (+) (interior U)
        (ew1 (\<lambda>x. par_dt p * x)
           (ew1 (\<lambda>x. x + par_k p)
              (ew2 (-) (ew2 (-) (ew2 (+) (ew1 (\<lambda>x. par_a p * x) (laplacian (par_dx p) U))
                                          (interior U))
                                 (ew1 (\<lambda>x. x ^ 3) (interior U)))
                       (interior V)))))"
  by (simp add: update_def Let_def)

lemma update_snd:
  "snd (update p (U, V)) =
   set_interior V
     (ew2 (+) (interior V)
        (ew1 (\<lambda>x. x / par_tau p)
           (ew1 (\<lambda>x. par_dt p * x)
              (ew2 (-) (ew2 (+) (ew1 (\<lambda>x. par_b p * x) (laplacian (par_dx p) V))
                                 (interior U))
                       (interior V)))))"
  by (simp add: update_def Let_def)

lemma shape_update:
  assumes "shape r c U" "shape r c V" "2 \<le> r" "2 \<le> c"
  shows "shape r c (fst (update p (U, V)))" and "shape r c (snd (update p (U, V)))"
  unfolding update_fst update_snd
  by (intro shape_set_interior shape_ew1 shape_ew2 shape_laplacian shape_interior assms)+

lemma update_entry_U:
  assumes "shape r c U" "shape r c V" "2 \<le> r" "2 \<le> c" "i < r" "j < c"
  shows "fst (update p (U, V)) ! i ! j =
         (if 0 < i \<and> i < r - 1 \<and> 0 < j \<and> j < c - 1
          then U ! i ! j + par_dt p *
                 (par_a p * laplacian (par_dx p) U ! (i - 1) ! (j - 1)
                  + U ! i ! j - (U ! i ! j) ^ 3 - V ! i ! j + par_k p)
          else U ! i ! j)"
proof (cases "0 < i \<and> i < r - 1 \<and> 0 < j \<and> j < c - 1")
  case True
  then have i': "i - Suc 0 < r - 2" and j': "j - Suc 0 < c - 2" by linarith+
  note e1 = ew1_entry [OF _ i' j'] and e2 = ew2_entry [OF _ _ i' j']
  note sh = shape_interior [OF assms(1)] shape_interior [OF assms(2)]
    shape_laplacian [OF assms(1)]
  from True show ?thesis
    unfolding update_fst
    by (simp add: set_interior_entry [OF assms(1,3,4) _ assms(5,6)] e1 e2 sh shape_ew1 shape_ew2
        interior_entry [OF assms(1) i' j'] interior_entry [OF assms(2) i' j'])
next
  case False
  show ?thesis
    unfolding update_fst
    by (subst set_interior_entry [OF assms(1,3,4) _ assms(5,6)])
      (intro shape_ew1 shape_ew2 shape_laplacian shape_interior assms, simp only: False if_False)
qed

lemma update_entry_V:
  assumes "shape r c U" "shape r c V" "2 \<le> r" "2 \<le> c" "i < r" "j < c"
  shows "snd (update p (U, V)) ! i ! j =
         (if 0 < i \<and> i < r - 1 \<and> 0 < j \<and> j < c - 1
          then V ! i ! j + par_dt p *
                 (par_b p * laplacian (par_dx p) V ! (i - 1) ! (j - 1) + U ! i ! j - V ! i ! j)
                 / par_tau p
          else V ! i ! j)"
proof (cases "0 < i \<and> i < r - 1 \<and> 0 < j \<and> j < c - 1")
  case True
  then have i': "i - Suc 0 < r - 2" and j': "j - Suc 0 < c - 2" by linarith+
  note e1 = ew1_entry [OF _ i' j'] and e2 = ew2_entry [OF _ _ i' j']
  note sh = shape_interior [OF assms(1)] shape_interior [OF assms(2)]
    shape_laplacian [OF assms(2)]
  from True show ?thesis
    unfolding update_snd
    by (simp add: set_interior_entry [OF assms(2,3,4) _ assms(5,6)] e1 e2 sh shape_ew1 shape_ew2
        interior_entry [OF assms(1) i' j'] interior_entry [OF assms(2) i' j'])
next
  case False
  show ?thesis
    unfolding update_snd
    by (subst set_interior_entry [OF assms(2,3,4) _ assms(5,6)])
      (intro shape_ew1 shape_ew2 shape_laplacian shape_interior assms, simp only: False if_False)
qed

lemma step_square:
  assumes "square sz U" "square sz V" "2 \<le> sz"
  shows "step p (U, V) =
         Inr (map (mirror sz) (mirror sz (fst (update p (U, V)))),
              map (mirror sz) (mirror sz (snd (update p (U, V)))))"
proof -
  from assms have "square sz (fst (update p (U, V)))" "square sz (snd (update p (U, V)))"
    by (simp_all add: square_def shape_update)
  then have "neumann (fst (update p (U, V))) = Inr (map (mirror sz) (mirror sz (fst (update p (U, V)))))"
    "neumann (snd (update p (U, V))) = Inr (map (mirror sz) (mirror sz (snd (update p (U, V)))))"
    using assms(3) by (simp_all add: neumann_square)
  then show ?thesis
    by (simp add: step_def case_prod_beta and_then_Inr)
qed

lemma loop_snoc: "loop (Suc m) p UV = and_then (loop m p UV) (step p)"
proof (induction m arbitrary: UV)
  case 0
  show ?case by (cases "step p UV") (simp_all add: and_then_def)
next
  case (Suc m)
  show ?case
  proof (cases "step p UV")
    case (Inl e)
    then show ?thesis by (simp add: and_then_def)
  next
    case (Inr UV')
    have "loop (Suc (Suc m)) p UV = loop (Suc m) p UV'"
      using Inr by (simp add: and_then_def)
    also have "\<dots> = and_then (loop m p UV') (step p)" by (rule Suc.IH)
    also have "loop m p UV' = loop (Suc m) p UV"
      using Inr by (simp add: and_then_def)
    finally show ?thesis .
  qed
qed

lemma loop_square:
  assumes "square sz U" "square sz V" "2 \<le> sz"
  shows "\<exists>U' V'. loop m p (U, V) = Inr (U', V') \<and> square sz U' \<and> square sz V'"
  using assms(1,2)
proof (induction m arbitrary: U V)
  case 0
  then show ?case by simp
next
  case (Suc m)
  let ?U = "map (mirror sz) (mirror sz (fst (update p (U, V))))"
  let ?V = "map (mirror sz) (mirror sz (snd (update p (U, V))))"
  from Suc.prems assms(3) have "square sz (fst (update p (U, V)))" "square sz (snd (update p (U, V)))"
    by (simp_all add: square_def shape_update)
  then have "square sz ?U" "square sz ?V"
    using assms(3) by (simp_all add: square_neumann_result)
  from Suc.IH [OF this] show ?case
    by (simp add: step_square [OF Suc.prems assms(3)] and_then_Inr)
qed

section \<open>The boundary invariant\<close>

lemma nearest_edges:
  assumes "2 \<le> n"
  shows "nearest n 0 = nearest n 1" and "nearest n (n - 1) = nearest n (n - 2)"
  using assms by (auto simp: nearest_def)

lemma nearest_inner: "0 < i \<Longrightarrow> i < n - 1 \<Longrightarrow> nearest n i = i"
  by (simp add: nearest_def)

lemma neumann_edges:
  assumes "square sz Z" "2 \<le> sz"
  shows "map (mirror sz) (mirror sz Z) ! 0 = map (mirror sz) (mirror sz Z) ! 1"
    and "map (mirror sz) (mirror sz Z) ! (sz - 1) = map (mirror sz) (mirror sz Z) ! (sz - 2)"
    and "map (\<lambda>row. row ! 0) (map (mirror sz) (mirror sz Z)) =
         map (\<lambda>row. row ! 1) (map (mirror sz) (mirror sz Z))"
    and "map (\<lambda>row. row ! (sz - 1)) (map (mirror sz) (mirror sz Z)) =
         map (\<lambda>row. row ! (sz - 2)) (map (mirror sz) (mirror sz Z))"
proof -
  let ?Z = "map (mirror sz) (mirror sz Z)"
  have sh: "shape sz sz ?Z"
    using square_neumann_result [OF assms] by (simp add: square_def)
  have en: "?Z ! i ! j = Z ! nearest sz i ! nearest sz j" if "i < sz" "j < sz" for i j
    using assms that by (rule neumann_entry)
  have rows: "?Z ! i = ?Z ! i'" if "i < sz" "i' < sz" "nearest sz i = nearest sz i'" for i i'
    by (rule nth_equalityI) (simp_all only: shape_row [OF sh] that en)
  have cols: "map (\<lambda>row. row ! j) ?Z = map (\<lambda>row. row ! j') ?Z"
    if "j < sz" "j' < sz" "nearest sz j = nearest sz j'" for j j'
  proof (rule nth_equalityI)
    show "length (map (\<lambda>row. row ! j) ?Z) = length (map (\<lambda>row. row ! j') ?Z)" by simp
  next
    fix i assume "i < length (map (\<lambda>row. row ! j) ?Z)"
    then have i: "i < sz" using shape_length [OF sh] by simp
    then have "i < length ?Z" using shape_length [OF sh] by simp
    then show "map (\<lambda>row. row ! j) ?Z ! i = map (\<lambda>row. row ! j') ?Z ! i"
      using en [OF i that(1)] en [OF i that(2)] that(3) by (simp only: nth_map)
  qed
  from assms(2) have lt: "0 < sz" "1 < sz" "sz - 1 < sz" "sz - 2 < sz" by linarith+
  show "?Z ! 0 = ?Z ! 1" using lt nearest_edges(1) [OF assms(2)] by (intro rows)
  show "?Z ! (sz - 1) = ?Z ! (sz - 2)" using lt nearest_edges(2) [OF assms(2)] by (intro rows)
  show "map (\<lambda>row. row ! 0) ?Z = map (\<lambda>row. row ! 1) ?Z"
    using lt nearest_edges(1) [OF assms(2)] by (intro cols)
  show "map (\<lambda>row. row ! (sz - 1)) ?Z = map (\<lambda>row. row ! (sz - 2)) ?Z"
    using lt nearest_edges(2) [OF assms(2)] by (intro cols)
qed

lemma neumann_corners:
  assumes "square sz Z" "2 \<le> sz"
  shows "map (mirror sz) (mirror sz Z) ! 0 ! 0 = map (mirror sz) (mirror sz Z) ! 1 ! 1"
    and "map (mirror sz) (mirror sz Z) ! 0 ! (sz - 1) = map (mirror sz) (mirror sz Z) ! 1 ! (sz - 2)"
    and "map (mirror sz) (mirror sz Z) ! (sz - 1) ! 0 = map (mirror sz) (mirror sz Z) ! (sz - 2) ! 1"
    and "map (mirror sz) (mirror sz Z) ! (sz - 1) ! (sz - 1) =
         map (mirror sz) (mirror sz Z) ! (sz - 2) ! (sz - 2)"
proof -
  from assms(2) have lt: "0 < sz" "1 < sz" "sz - 1 < sz" "sz - 2 < sz" by linarith+
  note en = neumann_entry [OF assms]
  note ne = nearest_edges [OF assms(2)]
  show "map (mirror sz) (mirror sz Z) ! 0 ! 0 = map (mirror sz) (mirror sz Z) ! 1 ! 1"
    by (simp only: en lt ne)
  show "map (mirror sz) (mirror sz Z) ! 0 ! (sz - 1) = map (mirror sz) (mirror sz Z) ! 1 ! (sz - 2)"
    by (simp only: en lt ne)
  show "map (mirror sz) (mirror sz Z) ! (sz - 1) ! 0 = map (mirror sz) (mirror sz Z) ! (sz - 2) ! 1"
    by (simp only: en lt ne)
  show "map (mirror sz) (mirror sz Z) ! (sz - 1) ! (sz - 1) =
         map (mirror sz) (mirror sz Z) ! (sz - 2) ! (sz - 2)"
    by (simp only: en lt ne)
qed

lemma loop_last_step:
  assumes "square sz U" "square sz V" "2 \<le> sz"
  shows "\<exists>U1 V1. square sz U1 \<and> square sz V1 \<and>
           loop (Suc m) p (U, V) =
             Inr (map (mirror sz) (mirror sz U1), map (mirror sz) (mirror sz V1))"
proof -
  from loop_square [OF assms] obtain Um Vm where
    m: "loop m p (U, V) = Inr (Um, Vm)" and sq: "square sz Um" "square sz Vm"
    by blast
  let ?U1 = "fst (update p (Um, Vm))" and ?V1 = "snd (update p (Um, Vm))"
  have "square sz ?U1" "square sz ?V1"
    using sq assms(3) by (simp_all add: square_def shape_update)
  moreover have "loop (Suc m) p (U, V) =
      Inr (map (mirror sz) (mirror sz ?U1), map (mirror sz) (mirror sz ?V1))"
    by (simp only: loop_snoc m and_then_Inr step_square [OF sq assms(3)])
  ultimately show ?thesis by blast
qed

text \<open>
  Claim C2. After the boundary pass of every iteration (the state after \<open>m + 1\<close>
  iterations, for every \<open>m\<close>), in both fields row 0 equals row 1, row \<open>sz - 1\<close> equals row
  \<open>sz - 2\<close>, column 0 equals column 1 and column \<open>sz - 1\<close> equals column \<open>sz - 2\<close>, as
  lists of entries. The iteration raises nothing on fields of size \<open>sz \<ge> 2\<close>.
\<close>

theorem boundary_rows_columns_copied:
  assumes "square sz U" "square sz V" "2 \<le> sz"
  shows "\<exists>U' V'. loop (Suc m) p (U, V) = Inr (U', V') \<and> square sz U' \<and> square sz V' \<and>
           U' ! 0 = U' ! 1 \<and> U' ! (sz - 1) = U' ! (sz - 2) \<and>
           map (\<lambda>row. row ! 0) U' = map (\<lambda>row. row ! 1) U' \<and>
           map (\<lambda>row. row ! (sz - 1)) U' = map (\<lambda>row. row ! (sz - 2)) U' \<and>
           V' ! 0 = V' ! 1 \<and> V' ! (sz - 1) = V' ! (sz - 2) \<and>
           map (\<lambda>row. row ! 0) V' = map (\<lambda>row. row ! 1) V' \<and>
           map (\<lambda>row. row ! (sz - 1)) V' = map (\<lambda>row. row ! (sz - 2)) V'"
proof -
  from loop_last_step [OF assms] obtain U1 V1 where sq: "square sz U1" "square sz V1"
    and l: "loop (Suc m) p (U, V) =
             Inr (map (mirror sz) (mirror sz U1), map (mirror sz) (mirror sz V1))"
    by blast
  show ?thesis
    using l square_neumann_result [OF sq(1) assms(3)] square_neumann_result [OF sq(2) assms(3)]
      neumann_edges [OF sq(1) assms(3)] neumann_edges [OF sq(2) assms(3)]
    by blast
qed

theorem boundary_rows_columns_copied_witness:
  "square 4 [[0, 1/8, 1/4, 3/8], [1/2, 5/8, 3/4, 7/8], [1/8, 1/4, 1/2, 1/16], [0, 1/2, 1/4, 1/8::real]] \<and>
   square 4 [[1/2, 1/4, 1/8, 0], [1/16, 1/2, 1/4, 1/8], [1/8, 1/16, 1/2, 1/4], [3/4, 1/2, 1/4, 0::real]] \<and>
   (\<exists>U' V'. loop (Suc 1)
       \<lparr>par_a = 28/100000, par_b = 5/1000, par_tau = 1/10, par_k = - 5/1000,
        par_dx = 1/2, par_dt = 9/80\<rparr>
       ([[0, 1/8, 1/4, 3/8], [1/2, 5/8, 3/4, 7/8], [1/8, 1/4, 1/2, 1/16], [0, 1/2, 1/4, 1/8]],
        [[1/2, 1/4, 1/8, 0], [1/16, 1/2, 1/4, 1/8], [1/8, 1/16, 1/2, 1/4], [3/4, 1/2, 1/4, 0]]) = Inr (U', V') \<and>
     square 4 U' \<and> square 4 V' \<and>
     U' ! 0 = U' ! 1 \<and> U' ! 3 = U' ! 2 \<and>
     map (\<lambda>row. row ! 0) U' = map (\<lambda>row. row ! 1) U' \<and>
     map (\<lambda>row. row ! 3) U' = map (\<lambda>row. row ! 2) U' \<and>
     V' ! 0 = V' ! 1 \<and> V' ! 3 = V' ! 2 \<and>
     map (\<lambda>row. row ! 0) V' = map (\<lambda>row. row ! 1) V' \<and>
     map (\<lambda>row. row ! 3) V' = map (\<lambda>row. row ! 2) V')"
proof -
  let ?U = "[[0, 1/8, 1/4, 3/8], [1/2, 5/8, 3/4, 7/8], [1/8, 1/4, 1/2, 1/16], [0, 1/2, 1/4, 1/8::real]]"
  let ?V = "[[1/2, 1/4, 1/8, 0], [1/16, 1/2, 1/4, 1/8], [1/8, 1/16, 1/2, 1/4], [3/4, 1/2, 1/4, 0::real]]"
  have sqU: "square 4 ?U" and sqV: "square 4 ?V" by (simp_all add: square_def shape_def)
  have le: "(2::nat) \<le> 4" by simp
  have d: "(4::nat) - 1 = 3" "(4::nat) - 2 = 2" by simp_all
  from boundary_rows_columns_copied [OF sqU sqV le, of 1] sqU sqV show ?thesis
    unfolding d by blast
qed

text \<open>
  Claim C9. After the boundary pass of every iteration, each corner entry of both
  fields equals its diagonal interior neighbour: \<open>Z[0,0] = Z[1,1]\<close>,
  \<open>Z[0,sz-1] = Z[1,sz-2]\<close>, \<open>Z[sz-1,0] = Z[sz-2,1]\<close> and \<open>Z[sz-1,sz-1] = Z[sz-2,sz-2]\<close>.
\<close>

theorem boundary_corners_diagonal:
  assumes "square sz U" "square sz V" "2 \<le> sz"
  shows "\<exists>U' V'. loop (Suc m) p (U, V) = Inr (U', V') \<and>
           U' ! 0 ! 0 = U' ! 1 ! 1 \<and> U' ! 0 ! (sz - 1) = U' ! 1 ! (sz - 2) \<and>
           U' ! (sz - 1) ! 0 = U' ! (sz - 2) ! 1 \<and>
           U' ! (sz - 1) ! (sz - 1) = U' ! (sz - 2) ! (sz - 2) \<and>
           V' ! 0 ! 0 = V' ! 1 ! 1 \<and> V' ! 0 ! (sz - 1) = V' ! 1 ! (sz - 2) \<and>
           V' ! (sz - 1) ! 0 = V' ! (sz - 2) ! 1 \<and>
           V' ! (sz - 1) ! (sz - 1) = V' ! (sz - 2) ! (sz - 2)"
proof -
  from loop_last_step [OF assms] obtain U1 V1 where sq: "square sz U1" "square sz V1"
    and l: "loop (Suc m) p (U, V) =
             Inr (map (mirror sz) (mirror sz U1), map (mirror sz) (mirror sz V1))"
    by blast
  show ?thesis
    using l neumann_corners [OF sq(1) assms(3)] neumann_corners [OF sq(2) assms(3)]
    by blast
qed

theorem boundary_corners_diagonal_witness:
  "square 4 [[0, 1/8, 1/4, 3/8], [1/2, 5/8, 3/4, 7/8], [1/8, 1/4, 1/2, 1/16], [0, 1/2, 1/4, 1/8::real]] \<and>
   square 4 [[1/2, 1/4, 1/8, 0], [1/16, 1/2, 1/4, 1/8], [1/8, 1/16, 1/2, 1/4], [3/4, 1/2, 1/4, 0::real]] \<and>
   (\<exists>U' V'. loop (Suc 1)
       \<lparr>par_a = 28/100000, par_b = 5/1000, par_tau = 1/10, par_k = - 5/1000,
        par_dx = 1/2, par_dt = 9/80\<rparr>
       ([[0, 1/8, 1/4, 3/8], [1/2, 5/8, 3/4, 7/8], [1/8, 1/4, 1/2, 1/16], [0, 1/2, 1/4, 1/8]],
        [[1/2, 1/4, 1/8, 0], [1/16, 1/2, 1/4, 1/8], [1/8, 1/16, 1/2, 1/4], [3/4, 1/2, 1/4, 0]]) = Inr (U', V') \<and>
     U' ! 0 ! 0 = U' ! 1 ! 1 \<and> U' ! 0 ! 3 = U' ! 1 ! 2 \<and>
     U' ! 3 ! 0 = U' ! 2 ! 1 \<and> U' ! 3 ! 3 = U' ! 2 ! 2 \<and>
     V' ! 0 ! 0 = V' ! 1 ! 1 \<and> V' ! 0 ! 3 = V' ! 1 ! 2 \<and>
     V' ! 3 ! 0 = V' ! 2 ! 1 \<and> V' ! 3 ! 3 = V' ! 2 ! 2)"
proof -
  let ?U = "[[0, 1/8, 1/4, 3/8], [1/2, 5/8, 3/4, 7/8], [1/8, 1/4, 1/2, 1/16], [0, 1/2, 1/4, 1/8::real]]"
  let ?V = "[[1/2, 1/4, 1/8, 0], [1/16, 1/2, 1/4, 1/8], [1/8, 1/16, 1/2, 1/4], [3/4, 1/2, 1/4, 0::real]]"
  have sqU: "square 4 ?U" and sqV: "square 4 ?V" by (simp_all add: square_def shape_def)
  have le: "(2::nat) \<le> 4" by simp
  have d: "(4::nat) - 1 = 3" "(4::nat) - 2 = 2" by simp_all
  from boundary_corners_diagonal [OF sqU sqV le, of 1] sqU sqV show ?thesis
    unfolding d by blast
qed

section \<open>One iteration at an interior cell\<close>

lemma laplacian_entry_interior:
  assumes "shape r c Z" "0 < i" "i < r - 1" "0 < j" "j < c - 1"
  shows "laplacian dx Z ! (i - 1) ! (j - 1) =
         (Z ! (i - 1) ! j + Z ! i ! (j - 1) + Z ! (i + 1) ! j + Z ! i ! (j + 1) - 4 * Z ! i ! j)
         / dx ^ 2"
proof -
  from assms obtain i' j' where i': "i = Suc i'" and j': "j = Suc j'"
    by (metis Suc_pred)
  with assms have "i' < r - 2" "j' < c - 2" by linarith+
  from laplacian_entry [OF assms(1) this] show ?thesis
    by (simp add: i' j')
qed

lemma step_entry:
  assumes "square sz U" "square sz V" "2 \<le> sz" "0 < i" "i < sz - 1" "0 < j" "j < sz - 1"
  shows "map (mirror sz) (mirror sz (fst (update p (U, V)))) ! i ! j =
           U ! i ! j + par_dt p *
             (par_a p * ((U ! (i - 1) ! j + U ! i ! (j - 1) + U ! (i + 1) ! j + U ! i ! (j + 1)
                          - 4 * U ! i ! j) / par_dx p ^ 2)
              + U ! i ! j - (U ! i ! j) ^ 3 - V ! i ! j + par_k p)"
    and "map (mirror sz) (mirror sz (snd (update p (U, V)))) ! i ! j =
           V ! i ! j + par_dt p *
             (par_b p * ((V ! (i - 1) ! j + V ! i ! (j - 1) + V ! (i + 1) ! j + V ! i ! (j + 1)
                          - 4 * V ! i ! j) / par_dx p ^ 2)
              + U ! i ! j - V ! i ! j) / par_tau p"
proof -
  from assms have shU: "shape sz sz U" and shV: "shape sz sz V" by (simp_all add: square_def)
  from assms have lt: "i < sz" "j < sz" by linarith+
  have sq: "square sz (fst (update p (U, V)))" "square sz (snd (update p (U, V)))"
    using shU shV assms(3) by (simp_all add: square_def shape_update)
  have n: "nearest sz i = i" "nearest sz j = j"
    using assms by (simp_all add: nearest_inner)
  have c: "0 < i \<and> i < sz - 1 \<and> 0 < j \<and> j < sz - 1" using assms by simp
  show "map (mirror sz) (mirror sz (fst (update p (U, V)))) ! i ! j =
           U ! i ! j + par_dt p *
             (par_a p * ((U ! (i - 1) ! j + U ! i ! (j - 1) + U ! (i + 1) ! j + U ! i ! (j + 1)
                          - 4 * U ! i ! j) / par_dx p ^ 2)
              + U ! i ! j - (U ! i ! j) ^ 3 - V ! i ! j + par_k p)"
    by (simp only: neumann_entry [OF sq(1) assms(3) lt] n
        update_entry_U [OF shU shV assms(3,3) lt] c simp_thms if_True
        laplacian_entry_interior [OF shU assms(4-7)])
  show "map (mirror sz) (mirror sz (snd (update p (U, V)))) ! i ! j =
           V ! i ! j + par_dt p *
             (par_b p * ((V ! (i - 1) ! j + V ! i ! (j - 1) + V ! (i + 1) ! j + V ! i ! (j + 1)
                          - 4 * V ! i ! j) / par_dx p ^ 2)
              + U ! i ! j - V ! i ! j) / par_tau p"
    by (simp only: neumann_entry [OF sq(2) assms(3) lt] n
        update_entry_V [OF shU shV assms(3,3) lt] c simp_thms if_True
        laplacian_entry_interior [OF shV assms(4-7)])
qed

lemma square_perturb:
  assumes "square sz V" "i < sz"
  shows "square sz (V[i := (V ! i)[j := v]])"
  unfolding square_def
  using assms by (intro shape_list_update) (simp_all add: square_def shape_row)

lemma perturb_entry:
  assumes "square sz V" "r < sz" "c < sz" "i < sz" "j < sz"
  shows "V[i := (V ! i)[j := v]] ! r ! c = (if r = i \<and> c = j then v else V ! r ! c)"
  using assms by (auto simp: square_def shape_length shape_row nth_list_update)

text \<open>
  The definitions a concrete run unfolds.
\<close>

lemmas eval_defs = step_def update_def laplacian_def interior_def slice2_def slice_def clip_index_def
  ew1_def ew2_def set_interior_def upd_slice_def neumann_def copy_row_def copy_col_def
  get_row_def set_row_def get_col_def set_col_def norm_index_def ncols_def and_then_def Let_def

text \<open>
  Claim C3, amended. The update of \<open>U\<close> reads \<open>Vc\<close>: in one iteration, adding \<open>d\<close> to the
  value of \<open>V\<close> before the update at one interior cell \<open>(i, j)\<close> changes the updated value of
  \<open>U\<close> at that cell by \<open>- dt * d\<close> and leaves the updated \<open>U\<close> at every other interior cell
  as it was; the updated \<open>V\<close> is as it was at every interior cell other than \<open>(i, j)\<close> and
  its four stencil neighbours.
\<close>

theorem perturb_V_one_cell:
  assumes "square sz U" "square sz V" "3 \<le> sz"
    and "0 < i" "i < sz - 1" "0 < j" "j < sz - 1"
  shows "\<exists>U1 V1 U2 V2.
           step p (U, V) = Inr (U1, V1) \<and>
           step p (U, V[i := (V ! i)[j := V ! i ! j + d]]) = Inr (U2, V2) \<and>
           U2 ! i ! j = U1 ! i ! j - par_dt p * d \<and>
           (\<forall>r c. 0 < r \<and> r < sz - 1 \<and> 0 < c \<and> c < sz - 1 \<and> (r, c) \<noteq> (i, j) \<longrightarrow>
              U2 ! r ! c = U1 ! r ! c) \<and>
           (\<forall>r c. 0 < r \<and> r < sz - 1 \<and> 0 < c \<and> c < sz - 1 \<and>
                  (r, c) \<notin> {(i, j), (i - 1, j), (i + 1, j), (i, j - 1), (i, j + 1)} \<longrightarrow>
              V2 ! r ! c = V1 ! r ! c)"
proof -
  define V' where "V' = V[i := (V ! i)[j := V ! i ! j + d]]"
  let ?N = "\<lambda>Z. map (mirror sz) (mirror sz Z)"
  from assms have two: "2 \<le> sz" and lt: "i < sz" "j < sz" by linarith+
  have sqV': "square sz V'" unfolding V'_def using assms(2) lt(1) by (rule square_perturb)
  have pe: "V' ! r ! c = (if r = i \<and> c = j then V ! i ! j + d else V ! r ! c)"
    if "r < sz" "c < sz" for r c
    unfolding V'_def using assms(2) that lt by (rule perturb_entry)
  have s1: "step p (U, V) = Inr (?N (fst (update p (U, V))), ?N (snd (update p (U, V))))"
    using assms(1,2) two by (rule step_square)
  have s2: "step p (U, V') = Inr (?N (fst (update p (U, V'))), ?N (snd (update p (U, V'))))"
    using assms(1) sqV' two by (rule step_square)
  have a: "?N (fst (update p (U, V'))) ! i ! j = ?N (fst (update p (U, V))) ! i ! j - par_dt p * d"
    by (simp add: step_entry(1) [OF assms(1) sqV' two assms(4-7)]
        step_entry(1) [OF assms(1,2) two assms(4-7)] pe lt algebra_simps)
  have b: "?N (fst (update p (U, V'))) ! r ! c = ?N (fst (update p (U, V))) ! r ! c"
    if "0 < r \<and> r < sz - 1 \<and> 0 < c \<and> c < sz - 1 \<and> (r, c) \<noteq> (i, j)" for r c
  proof -
    from that have rc: "0 < r" "r < sz - 1" "0 < c" "c < sz - 1" and ne: "\<not> (r = i \<and> c = j)"
      by simp_all
    from rc have "r < sz" "c < sz" by linarith+
    then have "V' ! r ! c = V ! r ! c" using ne by (simp only: pe if_False)
    then show ?thesis
      by (simp only: step_entry(1) [OF assms(1) sqV' two rc] step_entry(1) [OF assms(1,2) two rc])
  qed
  have c: "?N (snd (update p (U, V'))) ! r ! c = ?N (snd (update p (U, V))) ! r ! c"
    if "0 < r \<and> r < sz - 1 \<and> 0 < c \<and> c < sz - 1 \<and>
        (r, c) \<notin> {(i, j), (i - 1, j), (i + 1, j), (i, j - 1), (i, j + 1)}" for r c
  proof -
    from that have rc: "0 < r" "r < sz - 1" "0 < c" "c < sz - 1" by simp_all
    from that assms(4,6) have ne: "\<not> (r = i \<and> c = j)" "\<not> (r - 1 = i \<and> c = j)"
      "\<not> (r + 1 = i \<and> c = j)" "\<not> (r = i \<and> c - 1 = j)" "\<not> (r = i \<and> c + 1 = j)"
      by auto
    from rc have in_range: "r < sz" "c < sz" "r - 1 < sz" "r + 1 < sz" "c - 1 < sz" "c + 1 < sz"
      by linarith+
    have "V' ! r ! c = V ! r ! c" "V' ! (r - 1) ! c = V ! (r - 1) ! c"
      "V' ! (r + 1) ! c = V ! (r + 1) ! c" "V' ! r ! (c - 1) = V ! r ! (c - 1)"
      "V' ! r ! (c + 1) = V ! r ! (c + 1)"
      using ne by (simp_all only: pe in_range if_False)
    then show ?thesis
      by (simp only: step_entry(2) [OF assms(1) sqV' two rc] step_entry(2) [OF assms(1,2) two rc])
  qed
  from s1 s2 a b c show ?thesis unfolding V'_def by blast
qed

theorem perturb_V_one_cell_witness:
  "square 4 [[0, 1/8, 1/4, 3/8], [1/2, 5/8, 3/4, 7/8], [1/8, 1/4, 1/2, 1/16], [0, 1/2, 1/4, 1/8::real]] \<and>
   square 4 [[1/2, 1/4, 1/8, 0], [1/16, 1/2, 1/4, 1/8], [1/8, 1/16, 1/2, 1/4], [3/4, 1/2, 1/4, 0::real]] \<and>
   (\<exists>U1 V1 U2 V2.
      step \<lparr>par_a = 28/100000, par_b = 5/1000, par_tau = 1/10, par_k = - 5/1000,
            par_dx = 1/2, par_dt = 9/80\<rparr>
        ([[0, 1/8, 1/4, 3/8], [1/2, 5/8, 3/4, 7/8], [1/8, 1/4, 1/2, 1/16], [0, 1/2, 1/4, 1/8]],
         [[1/2, 1/4, 1/8, 0], [1/16, 1/2, 1/4, 1/8], [1/8, 1/16, 1/2, 1/4], [3/4, 1/2, 1/4, 0]])
        = Inr (U1, V1) \<and>
      step \<lparr>par_a = 28/100000, par_b = 5/1000, par_tau = 1/10, par_k = - 5/1000,
            par_dx = 1/2, par_dt = 9/80\<rparr>
        ([[0, 1/8, 1/4, 3/8], [1/2, 5/8, 3/4, 7/8], [1/8, 1/4, 1/2, 1/16], [0, 1/2, 1/4, 1/8]],
         [[1/2, 1/4, 1/8, 0], [1/16, 3/4, 1/4, 1/8], [1/8, 1/16, 1/2, 1/4], [3/4, 1/2, 1/4, 0]])
        = Inr (U2, V2) \<and>
      U2 ! 1 ! 1 = U1 ! 1 ! 1 - 9/80 * (1/4) \<and>
      U2 ! 1 ! 2 = U1 ! 1 ! 2 \<and> U2 ! 2 ! 1 = U1 ! 2 ! 1 \<and> U2 ! 2 ! 2 = U1 ! 2 ! 2 \<and>
      V2 ! 2 ! 2 = V1 ! 2 ! 2)"
proof -
  let ?U = "[[0, 1/8, 1/4, 3/8], [1/2, 5/8, 3/4, 7/8], [1/8, 1/4, 1/2, 1/16], [0, 1/2, 1/4, 1/8::real]]"
  let ?V = "[[1/2, 1/4, 1/8, 0], [1/16, 1/2, 1/4, 1/8], [1/8, 1/16, 1/2, 1/4], [3/4, 1/2, 1/4, 0::real]]"
  let ?p = "\<lparr>par_a = 28/100000, par_b = 5/1000, par_tau = 1/10, par_k = - 5/1000,
            par_dx = 1/2, par_dt = 9/80\<rparr>"
  have sqU: "square 4 ?U" and sqV: "square 4 ?V" by (simp_all add: square_def shape_def)
  have le: "(3::nat) \<le> 4" and i: "(0::nat) < 1" "(1::nat) < 4 - 1" by simp_all
  have V': "?V[1 := (?V ! 1)[1 := ?V ! 1 ! 1 + 1/4]] =
            [[1/2, 1/4, 1/8, 0], [1/16, 3/4, 1/4, 1/8], [1/8, 1/16, 1/2, 1/4], [3/4, 1/2, 1/4, 0]]"
    by simp
  from perturb_V_one_cell [OF sqU sqV le i i, of ?p "1/4"]
  obtain U1 V1 U2 V2 where s: "step ?p (?U, ?V) = Inr (U1, V1)"
    "step ?p (?U, ?V[1 := (?V ! 1)[1 := ?V ! 1 ! 1 + 1/4]]) = Inr (U2, V2)"
    and a: "U2 ! 1 ! 1 = U1 ! 1 ! 1 - par_dt ?p * (1/4)"
    and b: "\<And>r c. 0 < r \<and> r < 4 - 1 \<and> 0 < c \<and> c < 4 - 1 \<and> (r, c) \<noteq> (1, 1) \<longrightarrow>
              U2 ! r ! c = U1 ! r ! c"
    and c: "\<And>r c. 0 < r \<and> r < 4 - 1 \<and> 0 < c \<and> c < 4 - 1 \<and>
              (r, c) \<notin> {(1, 1), (1 - 1, 1), (1 + 1, 1), (1, 1 - 1), (1, 1 + 1)} \<longrightarrow>
              V2 ! r ! c = V1 ! r ! c"
    by blast
  from b [of 1 2] b [of 2 1] b [of 2 2] c [of 2 2]
  have "U2 ! 1 ! 2 = U1 ! 1 ! 2" "U2 ! 2 ! 1 = U1 ! 2 ! 1" "U2 ! 2 ! 2 = U1 ! 2 ! 2"
    "V2 ! 2 ! 2 = V1 ! 2 ! 2"
    by simp_all
  with s a sqU sqV show ?thesis unfolding V' by auto
qed

text \<open>
  The claim as it was stated (the updated \<open>U\<close> at the cell is not affected) fails: on a
  3-by-3 grid with \<open>U = V = 1/2\<close>, raising \<open>V[1,1]\<close> to \<open>3/4\<close> moves the updated \<open>U[1,1]\<close>
  from \<open>237/500\<close> to \<open>53/125\<close>.
\<close>

theorem perturb_V_one_cell_counterexample:
  "step \<lparr>par_a = 28/100000, par_b = 5/1000, par_tau = 1/10, par_k = - 5/1000,
          par_dx = 2/3, par_dt = 1/5\<rparr>
     ([[1/2, 1/2, 1/2], [1/2, 1/2, 1/2], [1/2, 1/2, 1/2]],
      [[1/2, 1/2, 1/2], [1/2, 1/2, 1/2], [1/2, 1/2, 1/2]])
   = Inr ([[237/500, 237/500, 237/500], [237/500, 237/500, 237/500], [237/500, 237/500, 237/500]],
          [[1/2, 1/2, 1/2], [1/2, 1/2, 1/2], [1/2, 1/2, 1/2]]) \<and>
   step \<lparr>par_a = 28/100000, par_b = 5/1000, par_tau = 1/10, par_k = - 5/1000,
          par_dx = 2/3, par_dt = 1/5\<rparr>
     ([[1/2, 1/2, 1/2], [1/2, 1/2, 1/2], [1/2, 1/2, 1/2]],
      [[1/2, 1/2, 1/2], [1/2, 3/4, 1/2], [1/2, 1/2, 1/2]])
   = Inr ([[53/125, 53/125, 53/125], [53/125, 53/125, 53/125], [53/125, 53/125, 53/125]],
          [[91/400, 91/400, 91/400], [91/400, 91/400, 91/400], [91/400, 91/400, 91/400]]) \<and>
   fst (projr (step \<lparr>par_a = 28/100000, par_b = 5/1000, par_tau = 1/10, par_k = - 5/1000,
          par_dx = 2/3, par_dt = 1/5\<rparr>
     ([[1/2, 1/2, 1/2], [1/2, 1/2, 1/2], [1/2, 1/2, 1/2]],
      [[1/2, 1/2, 1/2], [1/2, 3/4, 1/2], [1/2, 1/2, 1/2]]))) ! 1 ! 1
   \<noteq> fst (projr (step \<lparr>par_a = 28/100000, par_b = 5/1000, par_tau = 1/10, par_k = - 5/1000,
          par_dx = 2/3, par_dt = 1/5\<rparr>
     ([[1/2, 1/2, 1/2], [1/2, 1/2, 1/2], [1/2, 1/2, 1/2]],
      [[1/2, 1/2, 1/2], [1/2, 1/2, 1/2], [1/2, 1/2, 1/2]]))) ! 1 ! 1"
  by (simp add: eval_defs power3_eq_cube power2_eq_square)

text \<open>
  Claim C4, amended. On the 5-by-5 grid with \<open>U = V = 1/2\<close> everywhere, \<open>a = b = 0\<close>,
  \<open>k = 0\<close>, \<open>tau = 1\<close> and any \<open>dt\<close> with \<open>0 < dt \<le> dx\<^sup>2 / 2\<close>, the stencil of the field is
  zero everywhere and one iteration leaves \<open>V\<close> as it was and changes \<open>U\<close> by
  \<open>dt * (Uc - Uc\<^sup>3 - Vc) = - dt / 8\<close>: the term \<open>- Vc\<close> of the update takes part.
\<close>

theorem constant_half_scenario:
  assumes "0 < dt" "dt \<le> dx ^ 2 / 2"
  shows "laplacian dx (replicate 5 (replicate 5 (1/2))) = replicate 3 (replicate 3 0) \<and>
         step \<lparr>par_a = 0, par_b = 0, par_tau = 1, par_k = 0, par_dx = dx, par_dt = dt\<rparr>
           (replicate 5 (replicate 5 (1/2)), replicate 5 (replicate 5 (1/2)))
         = Inr (replicate 5 (replicate 5 (1/2 - dt / 8)), replicate 5 (replicate 5 (1/2)))"
proof -
  have r5: "replicate 5 x = [x, x, x, x, x]" for x :: 'a
    by (simp add: numeral_eq_Suc)
  have r3: "replicate 3 x = [x, x, x]" for x :: 'a
    by (simp add: numeral_eq_Suc)
  have "laplacian dx (replicate 5 (replicate 5 (1/2))) = replicate 3 (replicate 3 0)"
    unfolding r5 r3 by (simp add: eval_defs)
  moreover have "step \<lparr>par_a = 0, par_b = 0, par_tau = 1, par_k = 0, par_dx = dx, par_dt = dt\<rparr>
           (replicate 5 (replicate 5 (1/2)), replicate 5 (replicate 5 (1/2)))
         = Inr (replicate 5 (replicate 5 (1/2 - dt / 8)), replicate 5 (replicate 5 (1/2)))"
    unfolding r5 by (simp add: eval_defs power3_eq_cube algebra_simps)
  ultimately show ?thesis by simp
qed

theorem constant_half_scenario_witness:
  "(0::real) < 9/125 \<and> (9/125::real) \<le> (2/5) ^ 2 / 2 \<and>
   laplacian (2/5) (replicate 5 (replicate 5 (1/2))) = replicate 3 (replicate 3 0) \<and>
   step \<lparr>par_a = 0, par_b = 0, par_tau = 1, par_k = 0, par_dx = 2/5, par_dt = 9/125\<rparr>
     (replicate 5 (replicate 5 (1/2)), replicate 5 (replicate 5 (1/2)))
   = Inr (replicate 5 (replicate 5 (491/1000)), replicate 5 (replicate 5 (1/2)))"
proof -
  have h1: "(0::real) < 9/125" by simp
  have h2: "(9/125::real) \<le> (2/5) ^ 2 / 2" by (simp add: power2_eq_square)
  from constant_half_scenario [OF h1 h2] h1 h2 show ?thesis by simp
qed

text \<open>
  The claim as it was stated (\<open>U\<close> changes by \<open>0.375 * dt\<close>) fails at \<open>dx = 2/5\<close>,
  \<open>dt = 9/125\<close>: the updated \<open>U\<close> is \<open>491/1000\<close>, not \<open>1/2 + 0.375 * 9/125\<close>.
\<close>

theorem constant_half_scenario_counterexample:
  "step \<lparr>par_a = 0, par_b = 0, par_tau = 1, par_k = 0, par_dx = 2/5, par_dt = 9/125\<rparr>
     (replicate 5 (replicate 5 (1/2)), replicate 5 (replicate 5 (1/2)))
   = Inr (replicate 5 (replicate 5 (491/1000)), replicate 5 (replicate 5 (1/2))) \<and>
   fst (projr (step \<lparr>par_a = 0, par_b = 0, par_tau = 1, par_k = 0, par_dx = 2/5, par_dt = 9/125\<rparr>
     (replicate 5 (replicate 5 (1/2)), replicate 5 (replicate 5 (1/2))))) ! 2 ! 2
   \<noteq> 1/2 + 375/1000 * (9/125)"
  by (simp add: eval_defs numeral_eq_Suc power3_eq_cube)

text \<open>
  Claim C10. Within one iteration the updated \<open>U\<close> does not depend on \<open>b\<close> or \<open>tau\<close>, and
  the updated \<open>V\<close> does not depend on \<open>a\<close> or \<open>k\<close>: changing \<open>b\<close> and \<open>tau\<close> leaves the
  resulting \<open>U\<close> as it was, changing \<open>a\<close> and \<open>k\<close> leaves the resulting \<open>V\<close> as it was.
\<close>

theorem update_parameter_independence:
  assumes "square sz U" "square sz V" "2 \<le> sz"
  shows "\<exists>U1 V1 V2 U3.
           step p (U, V) = Inr (U1, V1) \<and>
           step (p\<lparr>par_b := b', par_tau := tau'\<rparr>) (U, V) = Inr (U1, V2) \<and>
           step (p\<lparr>par_a := a', par_k := k'\<rparr>) (U, V) = Inr (U3, V1)"
proof -
  have "fst (update (p\<lparr>par_b := b', par_tau := tau'\<rparr>) (U, V)) = fst (update p (U, V))"
    by (simp add: update_fst)
  moreover have "snd (update (p\<lparr>par_a := a', par_k := k'\<rparr>) (U, V)) = snd (update p (U, V))"
    by (simp add: update_snd)
  ultimately show ?thesis
    by (simp add: step_square [OF assms])
qed

theorem update_parameter_independence_witness:
  "square 3 [[0, 1/8, 1/4], [3/8, 1/2, 5/8], [3/4, 7/8, 1/16::real]] \<and>
   square 3 [[1/2, 1/4, 1/8], [1/16, 1/2, 1/4], [1/8, 1/16, 1/2::real]] \<and>
   (\<exists>U1 V1 V2 U3.
      step \<lparr>par_a = 28/100000, par_b = 5/1000, par_tau = 1/10, par_k = - 5/1000,
            par_dx = 2/3, par_dt = 1/5\<rparr>
        ([[0, 1/8, 1/4], [3/8, 1/2, 5/8], [3/4, 7/8, 1/16]],
         [[1/2, 1/4, 1/8], [1/16, 1/2, 1/4], [1/8, 1/16, 1/2]]) = Inr (U1, V1) \<and>
      step \<lparr>par_a = 28/100000, par_b = 1, par_tau = 2, par_k = - 5/1000,
            par_dx = 2/3, par_dt = 1/5\<rparr>
        ([[0, 1/8, 1/4], [3/8, 1/2, 5/8], [3/4, 7/8, 1/16]],
         [[1/2, 1/4, 1/8], [1/16, 1/2, 1/4], [1/8, 1/16, 1/2]]) = Inr (U1, V2) \<and>
      step \<lparr>par_a = 3, par_b = 5/1000, par_tau = 1/10, par_k = 4,
            par_dx = 2/3, par_dt = 1/5\<rparr>
        ([[0, 1/8, 1/4], [3/8, 1/2, 5/8], [3/4, 7/8, 1/16]],
         [[1/2, 1/4, 1/8], [1/16, 1/2, 1/4], [1/8, 1/16, 1/2]]) = Inr (U3, V1))"
proof -
  let ?U = "[[0, 1/8, 1/4], [3/8, 1/2, 5/8], [3/4, 7/8, 1/16::real]]"
  let ?V = "[[1/2, 1/4, 1/8], [1/16, 1/2, 1/4], [1/8, 1/16, 1/2::real]]"
  let ?p = "\<lparr>par_a = 28/100000, par_b = 5/1000, par_tau = 1/10, par_k = - 5/1000,
            par_dx = 2/3, par_dt = 1/5\<rparr>"
  have sqU: "square 3 ?U" and sqV: "square 3 ?V" by (simp_all add: square_def shape_def)
  have le: "(2::nat) \<le> 3" by simp
  from update_parameter_independence [OF sqU sqV le, where p = ?p and b' = 1 and tau' = 2
      and a' = 3 and k' = 4] sqU sqV
  show ?thesis by simp
qed

section \<open>The notebook as a whole\<close>


lemma rand_cong:
  assumes "\<forall>i<r * c. rng1 (off + i) = rng2 (off + i)"
  shows "rand rng1 off r c = rand rng2 off r c"
proof -
  have "rng1 (off + i * c + j) = rng2 (off + i * c + j)" if "i < r" "j < c" for i j
  proof -
    from that have "i * c + j < Suc i * c" by simp
    also from that have "Suc i * c \<le> r * c" by (intro mult_le_mono1) simp
    finally show ?thesis using assms by (simp add: add.assoc)
  qed
  then show ?thesis by (simp add: rand_def)
qed






text \<open>
  Claim C8. Two runs of the notebook with one configuration (hence one number of
  iterations) and with random sources that agree on the \<open>2 * size\<^sup>2\<close> draws the two
  calls of \<^verbatim>\<open>np.random.rand\<close> take have one outcome: the same final \<open>U\<close> and \<open>V\<close>.
\<close>

theorem script_deterministic:
  assumes "\<forall>i < 2 * (nat (cfg_size cfg) * nat (cfg_size cfg)). rng1 i = rng2 i"
  shows "script cfg rng1 = script cfg rng2"
proof -
  let ?n = "nat (cfg_size cfg)"
  have "rand rng1 0 ?n ?n = rand rng2 0 ?n ?n"
    using assms by (intro rand_cong) simp
  moreover have "rand rng1 (?n * ?n) ?n ?n = rand rng2 (?n * ?n) ?n ?n"
    using assms by (intro rand_cong) simp
  ultimately show ?thesis by (simp add: script_def Let_def)
qed

theorem script_deterministic_witness:
  "script \<lparr>cfg_a = 28/100000, cfg_b = 5/1000, cfg_tau = 1/10, cfg_k = - 5/1000,
            cfg_size = 2, cfg_T = 10\<rparr> (\<lambda>i. real i / 8)
   = script \<lparr>cfg_a = 28/100000, cfg_b = 5/1000, cfg_tau = 1/10, cfg_k = - 5/1000,
            cfg_size = 2, cfg_T = 10\<rparr> (\<lambda>i. if i < 8 then real i / 8 else 0)"
  by (rule script_deterministic) simp

end
